theory Spec2Isabelle
  imports Main "HOL-Library.AList" "HOL-Library.Sublist"
begin

section \<open>Values exchanged with the provider\<close>

text \<open>
  The value returned by \<^verbatim>\<open>response.json()\<close>: Python's image of a JSON document.
  \<open>JNull\<close> is Python's \<^verbatim>\<open>None\<close>. Numbers are never inspected by the program, so their
  type is a parameter. A \<open>JObj\<close> is a Python dict, given as its items in insertion order;
  a dict has no repeated key, and \<open>map_of\<close> is its lookup.
\<close>

datatype 'n json =
    JNull
  | JBool bool
  | JNum 'n
  | JStr string
  | JArr "'n json list"
  | JObj "(string \<times> 'n json) list"

text \<open>The exceptions that occur. \<open>ClientError\<close> stands for every instance of
  \<^verbatim>\<open>aiohttp.ClientError\<close> (its subclasses included) and carries \<^verbatim>\<open>str(e)\<close>;
  \<open>JSONDecodeError\<close> is the \<^verbatim>\<open>ValueError\<close> subclass of the \<^verbatim>\<open>json\<close> module.\<close>

datatype py_exception =
    ValueError string
  | ClientError string
  | JSONDecodeError string
  | AttributeError
  | TypeError
  | OtherException string

text \<open>The dict \<^verbatim>\<open>{"sale": ..., "purchase": ...}\<close> built for one currency.\<close>

record 'n rate_record =
  sale :: "'n json"
  purchase :: "'n json"

text \<open>\<^verbatim>\<open>rates\<close>: currency code to record; and the dict a fetch returns, \<^verbatim>\<open>{date: rates}\<close>
  or \<^verbatim>\<open>{}\<close>. Both are dicts with string keys, kept as their items in insertion order.\<close>

type_synonym 'n rates = "(string \<times> 'n rate_record) list"
type_synonym 'n daily_rates = "(string \<times> 'n rates) list"

section \<open>\<^verbatim>\<open>PrivatBankCurrencyRatesFetcher._parse_response\<close>\<close>

text \<open>\<^verbatim>\<open>d.get(key, default)\<close> on a dict.\<close>

definition dict_get :: "(string \<times> 'v) list \<Rightarrow> string \<Rightarrow> 'v \<Rightarrow> 'v" where
  "dict_get d k dflt = (case map_of d k of None \<Rightarrow> dflt | Some v \<Rightarrow> v)"

text \<open>What \<^verbatim>\<open>for rate in v\<close> iterates over: the elements of a list, the keys of a dict, the
  characters of a string; any other value is not iterable.\<close>

definition iter_items :: "'n json \<Rightarrow> py_exception + 'n json list" where
  "iter_items v =
     (case v of
        JArr xs \<Rightarrow> Inr xs
      | JObj d \<Rightarrow> Inr (map (\<lambda>kv. JStr (fst kv)) d)
      | JStr s \<Rightarrow> Inr (map (\<lambda>c. JStr [c]) s)
      | _ \<Rightarrow> Inl TypeError)"

text \<open>Lines 33 to 36: the record built from one entry; \<^verbatim>\<open>rate.get("saleRate")\<close> has the
  default \<^verbatim>\<open>None\<close>.\<close>

definition rate_record_of :: "(string \<times> 'n json) list \<Rightarrow> 'n rate_record" where
  "rate_record_of rate =
     \<lparr>sale = dict_get rate ''saleRate'' JNull, purchase = dict_get rate ''purchaseRate'' JNull\<rparr>"

text \<open>The body of the loop of lines 31 to 36, run over the remaining entries with the
  dict \<^verbatim>\<open>rates\<close> built so far. An entry that is not a dict has no \<^verbatim>\<open>get\<close>.
  \<^verbatim>\<open>x in ["EUR", "USD"]\<close> holds only of the two strings themselves, and
  \<^verbatim>\<open>rates[c] = ...\<close> replaces the value of a key already there, in its place.\<close>

definition wanted_currencies :: "string list" where
  "wanted_currencies = [''EUR'', ''USD'']"

fun parse_loop :: "'n json list \<Rightarrow> 'n rates \<Rightarrow> py_exception + 'n rates" where
  "parse_loop [] rates = Inr rates"
| "parse_loop (JObj rate # rest) rates =
     (case dict_get rate ''currency'' JNull of
        JStr c \<Rightarrow>
          if c \<in> set wanted_currencies
          then parse_loop rest (AList.update c (rate_record_of rate) rates)
          else parse_loop rest rates
      | _ \<Rightarrow> parse_loop rest rates)"
| "parse_loop (_ # rest) rates = Inl AttributeError"

definition parse_response :: "'n json \<Rightarrow> string \<Rightarrow> py_exception + 'n daily_rates" where
  "parse_response data date =
     (case data of
        JObj d \<Rightarrow>
          (case iter_items (dict_get d ''exchangeRate'' (JArr [])) of
             Inl e \<Rightarrow> Inl e
           | Inr entries \<Rightarrow>
               (case parse_loop entries [] of
                  Inl e \<Rightarrow> Inl e
                | Inr rates \<Rightarrow> Inr (if rates \<noteq> [] then [(date, rates)] else [])))
      | _ \<Rightarrow> Inl AttributeError)"

section \<open>\<^verbatim>\<open>PrivatBankCurrencyRatesFetcher.fetch_rates\<close>\<close>

text \<open>What lines 21 to 23 come to for one request: the request, \<^verbatim>\<open>raise_for_status\<close> or
  the decoding of the body raises, or \<^verbatim>\<open>response.json()\<close> hands over the decoded body.\<close>

datatype 'n http_outcome = Raised py_exception | Body "'n json"

text \<open>A finished coroutine: the exception it raised or the value it returned, and the
  lines it printed.\<close>

type_synonym 'a task_outcome = "(py_exception + 'a) \<times> string list"

text \<open>The \<^verbatim>\<open>try\<close> block, lines 21 to 24.\<close>

definition try_block :: "'n http_outcome \<Rightarrow> string \<Rightarrow> py_exception + 'n daily_rates" where
  "try_block resp date =
     (case resp of Raised e \<Rightarrow> Inl e | Body data \<Rightarrow> parse_response data date)"

text \<open>The block with its handler, which catches \<^verbatim>\<open>aiohttp.ClientError\<close> and nothing else.\<close>

definition fetch_rates :: "'n http_outcome \<Rightarrow> string \<Rightarrow> 'n daily_rates task_outcome" where
  "fetch_rates resp date =
     (case try_block resp date of
        Inl (ClientError msg) \<Rightarrow> (Inr [], [''Error fetching data for '' @ date @ '': '' @ msg])
      | Inl e \<Rightarrow> (Inl e, [])
      | Inr r \<Rightarrow> (Inr r, []))"

section \<open>The date range\<close>

text \<open>A reading of \<^verbatim>\<open>datetime.now()\<close>: the local calendar day, counted from 1970-01-01,
  and the time of that day. Subtracting \<^verbatim>\<open>timedelta(days=i)\<close> moves the day and leaves
  the time, which \<^verbatim>\<open>strftime("%d.%m.%Y")\<close> does not print.\<close>

record datetime =
  epoch_day :: nat
  day_micros :: nat

text \<open>\<^verbatim>\<open>date.toordinal()\<close>: day 1 is 0001-01-01, and 1970-01-01 is day 719163.\<close>

definition toordinal :: "datetime \<Rightarrow> int" where
  "toordinal dt = 719163 + int (epoch_day dt)"

definition days_before_month :: "int \<Rightarrow> int" where
  "days_before_month m = [- 1, 0, 31, 59, 90, 120, 151, 181, 212, 243, 273, 304, 334] ! nat m"

definition days_in_month :: "int \<Rightarrow> int" where
  "days_in_month m = [- 1, 31, 28, 31, 30, 31, 30, 31, 31, 30, 31, 30, 31] ! nat m"

text \<open>The proleptic Gregorian calendar of the \<^verbatim>\<open>datetime\<close> module: year, month and day
  of an ordinal, by cycles of 400, 100, 4 and 1 years.\<close>

definition ord2ymd :: "int \<Rightarrow> int \<times> int \<times> int" where
  "ord2ymd ordinal =
     (let n0 = ordinal - 1;
          n400 = n0 div 146097; r400 = n0 mod 146097;
          n100 = r400 div 36524; r100 = r400 mod 36524;
          n4 = r100 div 1461; r4 = r100 mod 1461;
          n1 = r4 div 365; n = r4 mod 365;
          year = n400 * 400 + 1 + n100 * 100 + n4 * 4 + n1
      in if n1 = 4 \<or> n100 = 4 then (year - 1, 12, 31)
         else
           let leapyear = (n1 = 3 \<and> (n4 \<noteq> 24 \<or> n100 = 3));
               month = (n + 50) div 32;
               preceding = days_before_month month + (if month > 2 \<and> leapyear then 1 else 0)
           in if preceding > n
              then let month' = month - 1;
                       preceding' = preceding
                         - (days_in_month month' + (if month' = 2 \<and> leapyear then 1 else 0))
                   in (year, month', n - preceding' + 1)
              else (year, month, n - preceding + 1))"

definition digit :: "int \<Rightarrow> char" where
  "digit d = ''0123456789'' ! nat (d mod 10)"

definition pad2 :: "int \<Rightarrow> string" where
  "pad2 n = [digit (n div 10), digit n]"

definition pad4 :: "int \<Rightarrow> string" where
  "pad4 n = [digit (n div 1000), digit (n div 100), digit (n div 10), digit n]"

text \<open>\<^verbatim>\<open>strftime("%d.%m.%Y")\<close> of the date with the given ordinal (years 1000 to 9999).\<close>

definition strftime_dmY :: "int \<Rightarrow> string" where
  "strftime_dmY ordinal =
     (case ord2ymd ordinal of (y, m, d) \<Rightarrow> pad2 d @ ''.'' @ pad2 m @ ''.'' @ pad4 y)"

text \<open>Line 47. The comprehension evaluates \<^verbatim>\<open>datetime.now()\<close> once for each \<^verbatim>\<open>i\<close>:
  \<open>clock i\<close> is the reading taken for \<^verbatim>\<open>i\<close>.\<close>

definition date_range :: "(nat \<Rightarrow> datetime) \<Rightarrow> int \<Rightarrow> string list" where
  "date_range clock days =
     map (\<lambda>i. strftime_dmY (toordinal (clock i) - int i)) [0..<nat days]"

section \<open>\<^verbatim>\<open>CurrencyRatesService.get_rates_for_days\<close>\<close>

text \<open>An implementation of \<^verbatim>\<open>CurrencyRatesFetcher\<close>: what the coroutine made by the
  \<open>k\<close>-th call of \<^verbatim>\<open>fetch_rates\<close>, for the given date, comes to.\<close>

type_synonym 'n fetcher = "nat \<Rightarrow> string \<Rightarrow> 'n daily_rates task_outcome"

text \<open>The provider's fetcher over a network that answers the \<open>k\<close>-th request with
  \<open>transport k date\<close>.\<close>

definition privat_fetcher :: "(nat \<Rightarrow> string \<Rightarrow> 'n http_outcome) \<Rightarrow> 'n fetcher" where
  "privat_fetcher transport k date = fetch_rates (transport k date) date"

text \<open>What the program does to the world: calls of \<^verbatim>\<open>fetch_rates\<close> and printed lines.\<close>

datatype event = Fetch string | Print string

text \<open>\<^verbatim>\<open>await asyncio.gather(*tasks)\<close> with \<^verbatim>\<open>return_exceptions\<close> left false. The tasks
  finish in the order \<open>schedule\<close> lists their indices. A value is stored in the slot of its
  task; the first exception is raised to the awaiting caller at once. When the schedule
  is over and a slot is still empty, that task never finishes and neither does the
  \<^verbatim>\<open>await\<close>: the result is \<open>None\<close>.\<close>

fun gather ::
  "nat list \<Rightarrow> 'a task_outcome list \<Rightarrow> 'a option list \<Rightarrow> event list
     \<Rightarrow> ((py_exception + 'a list) \<times> event list) option" where
  "gather [] tasks slots tr = map_option (\<lambda>results. (Inr results, tr)) (those slots)"
| "gather (k # schedule) tasks slots tr =
     (if k < length tasks
      then (case tasks ! k of
              (Inl e, printed) \<Rightarrow> Some (Inl e, tr @ map Print printed)
            | (Inr r, printed) \<Rightarrow>
                gather schedule tasks (slots[k := Some r]) (tr @ map Print printed))
      else gather schedule tasks slots tr)"

definition get_rates_for_days ::
  "'n fetcher \<Rightarrow> (nat \<Rightarrow> datetime) \<Rightarrow> nat list \<Rightarrow> int
     \<Rightarrow> ((py_exception + 'n daily_rates list) \<times> event list) option" where
  "get_rates_for_days fetcher clock schedule days =
     (if days < 1 \<or> days > 10
      then Some (Inl (ValueError ''Number of days must be between 1 and 10''), [])
      else
        let dates = date_range clock days;
            tasks = map (\<lambda>(k, date). fetcher k date) (enumerate 0 dates)
        in case gather schedule tasks (replicate (length tasks) None) (map Fetch dates) of
             None \<Rightarrow> None
           | Some (Inl e, tr) \<Rightarrow> Some (Inl e, tr)
           | Some (Inr results, tr) \<Rightarrow> Some (Inr (filter (\<lambda>result. result \<noteq> []) results), tr))"

section \<open>Inputs for the examples\<close>

text \<open>Readings of the clock a millisecond apart, from noon of 2024-03-10.\<close>

definition noon_clock :: "nat \<Rightarrow> datetime" where
  "noon_clock i = \<lparr>epoch_day = 19792, day_micros = 43200000000 + 1000 * i\<rparr>"

text \<open>A reading ten microseconds before the midnight that ends 2024-03-10, and the
  readings after it fifteen microseconds into 2024-03-11.\<close>

definition midnight_clock :: "nat \<Rightarrow> datetime" where
  "midnight_clock i =
     (if i = 0 then \<lparr>epoch_day = 19792, day_micros = 86399999990\<rparr>
      else \<lparr>epoch_day = 19793, day_micros = 15\<rparr>)"

text \<open>A network that answers every request with the JSON document \<^verbatim>\<open>[]\<close>.\<close>

definition non_object_network :: "nat \<Rightarrow> string \<Rightarrow> int http_outcome" where
  "non_object_network k date = Body (JArr [])"

text \<open>A network on which the request of index 1 cannot connect, the request of index 2
  is answered with pounds only, and every other request with pounds and euros.\<close>

definition patchy_network :: "nat \<Rightarrow> string \<Rightarrow> int http_outcome" where
  "patchy_network k date =
     (if k = 1 then Raised (ClientError ''Cannot connect to host'')
      else if k = 2 then
        Body (JObj [(''date'', JStr date),
                    (''exchangeRate'',
                     JArr [JObj [(''currency'', JStr ''GBP''), (''saleRate'', JNum 50)]])])
      else
        Body (JObj [(''date'', JStr date),
                    (''exchangeRate'',
                     JArr [JObj [(''currency'', JStr ''GBP''), (''saleRate'', JNum 50)],
                           JObj [(''currency'', JStr ''EUR''), (''saleRate'', JNum 42),
                                 (''purchaseRate'', JNum 41)]])]))"

text \<open>A network on which no request can connect.\<close>

definition unreachable_network :: "nat \<Rightarrow> string \<Rightarrow> int http_outcome" where
  "unreachable_network k date = Raised (ClientError ''Cannot connect to host'')"

text \<open>An implementation of \<^verbatim>\<open>CurrencyRatesFetcher\<close> whose \<^verbatim>\<open>fetch_rates\<close> raises.\<close>

definition raising_stub :: "int fetcher" where
  "raising_stub k date = (Inl (ClientError ''Cannot connect to host''), [])"

section \<open>Properties of the parser\<close>

lemma set_update_subset: "set (AList.update k v al) \<subseteq> insert (k, v) (set al)"
  by (induction al) auto

lemma parse_loop_keep:
  "map_of rate ''currency'' = Some (JStr c) \<Longrightarrow> c \<in> set wanted_currencies \<Longrightarrow>
   parse_loop (JObj rate # rest) rates = parse_loop rest (AList.update c (rate_record_of rate) rates)"
  by (auto simp: dict_get_def)

lemma parse_loop_drop:
  "\<forall>c. map_of rate ''currency'' = Some (JStr c) \<longrightarrow> c \<notin> set wanted_currencies \<Longrightarrow>
   parse_loop (JObj rate # rest) rates = parse_loop rest rates"
  by (auto simp: dict_get_def split: option.splits json.splits)

lemma parse_loop_not_dict:
  "\<forall>rate. x \<noteq> JObj rate \<Longrightarrow> parse_loop (x # rest) rates = Inl AttributeError"
  by (cases x) simp_all

lemma parse_loop_cases:
  obtains (keep) rate c where "x = JObj rate" "map_of rate ''currency'' = Some (JStr c)" "c \<in> set wanted_currencies"
  | (drop) rate where "x = JObj rate" "\<forall>c. map_of rate ''currency'' = Some (JStr c) \<longrightarrow> c \<notin> set wanted_currencies"
  | (not_dict) "\<forall>rate. x \<noteq> JObj rate"
  by (cases x) auto

lemma parse_loop_keys:
  "parse_loop entries rates = Inr rates' \<Longrightarrow>
   fst ` set rates' = fst ` set rates \<union>
     {c \<in> set wanted_currencies. \<exists>rate. JObj rate \<in> set entries \<and> map_of rate ''currency'' = Some (JStr c)}"
proof (induction entries arbitrary: rates)
  case Nil
  then show ?case by simp
next
  case (Cons x entries)
  show ?case
  proof (cases x rule: parse_loop_cases)
    case (keep rate c)
    with Cons.prems have "parse_loop entries (AList.update c (rate_record_of rate) rates) = Inr rates'"
      by (simp add: parse_loop_keep del: parse_loop.simps)
    from Cons.IH[OF this] keep show ?thesis
      by (auto simp: dom_update)
  next
    case (drop rate)
    with Cons.prems have "parse_loop entries rates = Inr rates'"
      by (simp add: parse_loop_drop del: parse_loop.simps)
    from Cons.IH[OF this] drop show ?thesis
      by auto
  next
    case not_dict
    with Cons.prems show ?thesis by (simp add: parse_loop_not_dict del: parse_loop.simps)
  qed
qed

lemma parse_loop_returns:
  "(\<exists>rates'. parse_loop entries rates = Inr rates') = (\<forall>x\<in>set entries. \<exists>rate. x = JObj rate)"
proof (induction entries arbitrary: rates)
  case Nil
  then show ?case by simp
next
  case (Cons x entries)
  show ?case
  proof (cases x rule: parse_loop_cases)
    case (keep rate c)
    then show ?thesis using Cons.IH by (simp add: parse_loop_keep del: parse_loop.simps)
  next
    case (drop rate)
    then show ?thesis using Cons.IH by (simp add: parse_loop_drop del: parse_loop.simps)
  next
    case not_dict
    then show ?thesis by (auto simp: parse_loop_not_dict del: parse_loop.simps)
  qed
qed

lemma parse_loop_raises:
  "parse_loop entries rates = Inl e \<Longrightarrow> e = AttributeError"
proof (induction entries arbitrary: rates)
  case Nil
  then show ?case by simp
next
  case (Cons x entries)
  show ?case
  proof (cases x rule: parse_loop_cases)
    case (keep rate c)
    with Cons show ?thesis by (simp add: parse_loop_keep del: parse_loop.simps)
  next
    case (drop rate)
    with Cons show ?thesis by (simp add: parse_loop_drop del: parse_loop.simps)
  next
    case not_dict
    with Cons.prems show ?thesis by (simp add: parse_loop_not_dict del: parse_loop.simps)
  qed
qed

lemma parse_loop_origin:
  "parse_loop entries rates = Inr rates' \<Longrightarrow> (c, r) \<in> set rates' \<Longrightarrow>
   (c, r) \<in> set rates \<or>
   (\<exists>rate. JObj rate \<in> set entries \<and> map_of rate ''currency'' = Some (JStr c) \<and> r = rate_record_of rate)"
proof (induction entries arbitrary: rates)
  case Nil
  then show ?case by simp
next
  case (Cons x entries)
  show ?case
  proof (cases x rule: parse_loop_cases)
    case (keep rate c')
    with Cons.prems have "parse_loop entries (AList.update c' (rate_record_of rate) rates) = Inr rates'"
      by (simp add: parse_loop_keep del: parse_loop.simps)
    from Cons.IH[OF this Cons.prems(2)] keep set_update_subset[of c' "rate_record_of rate" rates]
    show ?thesis by auto
  next
    case (drop rate)
    with Cons.prems have "parse_loop entries rates = Inr rates'"
      by (simp add: parse_loop_drop del: parse_loop.simps)
    from Cons.IH[OF this Cons.prems(2)] show ?thesis by auto
  next
    case not_dict
    with Cons.prems show ?thesis by (simp add: parse_loop_not_dict del: parse_loop.simps)
  qed
qed

lemma parse_loop_append:
  "parse_loop (pre @ post) rates =
     (case parse_loop pre rates of Inl e \<Rightarrow> Inl e | Inr rates' \<Rightarrow> parse_loop post rates')"
proof (induction pre arbitrary: rates)
  case Nil
  then show ?case by simp
next
  case (Cons x pre)
  show ?case
  proof (cases x rule: parse_loop_cases)
    case (keep rate c)
    then show ?thesis using Cons.IH by (simp add: parse_loop_keep del: parse_loop.simps)
  next
    case (drop rate)
    then show ?thesis using Cons.IH by (simp add: parse_loop_drop del: parse_loop.simps)
  next
    case not_dict
    then show ?thesis by (simp add: parse_loop_not_dict del: parse_loop.simps)
  qed
qed

lemma parse_loop_untouched:
  "parse_loop entries rates = Inr rates' \<Longrightarrow>
   \<forall>rate. JObj rate \<in> set entries \<longrightarrow> map_of rate ''currency'' \<noteq> Some (JStr c) \<Longrightarrow>
   map_of rates' c = map_of rates c"
proof (induction entries arbitrary: rates)
  case Nil
  then show ?case by simp
next
  case (Cons x entries)
  show ?case
  proof (cases x rule: parse_loop_cases)
    case (keep rate c')
    with Cons.prems have run: "parse_loop entries (AList.update c' (rate_record_of rate) rates) = Inr rates'"
      by (simp add: parse_loop_keep del: parse_loop.simps)
    from keep Cons.prems(2) have "c' \<noteq> c" by auto
    with Cons.IH[OF run] Cons.prems(2) show ?thesis
      by (simp add: update_conv')
  next
    case (drop rate)
    with Cons.prems have "parse_loop entries rates = Inr rates'"
      by (simp add: parse_loop_drop del: parse_loop.simps)
    from Cons.IH[OF this] Cons.prems(2) show ?thesis by simp
  next
    case not_dict
    with Cons.prems show ?thesis by (simp add: parse_loop_not_dict del: parse_loop.simps)
  qed
qed

lemma parse_loop_last:
  assumes run: "parse_loop (pre @ JObj rate # post) rates = Inr rates'"
    and cur: "map_of rate ''currency'' = Some (JStr c)" "c \<in> set wanted_currencies"
    and later: "\<forall>rate'. JObj rate' \<in> set post \<longrightarrow> map_of rate' ''currency'' \<noteq> Some (JStr c)"
  shows "map_of rates' c = Some (rate_record_of rate)"
proof -
  from run obtain mid where mid: "parse_loop pre rates = Inr mid"
    and rest: "parse_loop (JObj rate # post) mid = Inr rates'"
    by (auto simp: parse_loop_append split: sum.splits)
  from rest cur have "parse_loop post (AList.update c (rate_record_of rate) mid) = Inr rates'"
    by (simp add: parse_loop_keep del: parse_loop.simps)
  from parse_loop_untouched[OF this later] show ?thesis
    by (simp add: update_conv')
qed

lemma parse_loop_distinct:
  "parse_loop entries rates = Inr rates' \<Longrightarrow> distinct (map fst rates) \<Longrightarrow>
   distinct (map fst rates')"
proof (induction entries arbitrary: rates)
  case Nil
  then show ?case by simp
next
  case (Cons x entries)
  show ?case
  proof (cases x rule: parse_loop_cases)
    case (keep rate c)
    with Cons.prems have "parse_loop entries (AList.update c (rate_record_of rate) rates) = Inr rates'"
      by (simp add: parse_loop_keep del: parse_loop.simps)
    from Cons.IH[OF this] Cons.prems(2) show ?thesis
      by (simp add: distinct_update)
  next
    case (drop rate)
    with Cons.prems have "parse_loop entries rates = Inr rates'"
      by (simp add: parse_loop_drop del: parse_loop.simps)
    from Cons.IH[OF this] Cons.prems(2) show ?thesis by simp
  next
    case not_dict
    with Cons.prems show ?thesis by (simp add: parse_loop_not_dict del: parse_loop.simps)
  qed
qed

lemma parse_response_array:
  "map_of d ''exchangeRate'' = Some (JArr entries) \<Longrightarrow>
   parse_response (JObj d) date =
     (case parse_loop entries [] of
        Inl e \<Rightarrow> Inl e
      | Inr rates \<Rightarrow> Inr (if rates \<noteq> [] then [(date, rates)] else []))"
  by (simp add: parse_response_def dict_get_def iter_items_def)

lemma parse_response_currencies:
  assumes "parse_response data date = Inr r" and "(dt, rates) \<in> set r"
  shows "dt = date \<and> r = [(date, rates)] \<and> rates \<noteq> [] \<and> fst ` set rates \<subseteq> set wanted_currencies"
proof -
  from assms obtain d entries where
    run: "parse_loop entries [] = Inr rates" and r: "r = [(date, rates)]" "rates \<noteq> []"
    by (auto simp: parse_response_def split: json.splits sum.splits if_splits)
  from parse_loop_keys[OF run] have "fst ` set rates \<subseteq> set wanted_currencies"
    by auto
  with assms r show ?thesis by simp
qed

lemma parse_response_raises:
  "parse_response data date = Inl e \<Longrightarrow> e = AttributeError \<or> e = TypeError"
  by (auto simp: parse_response_def iter_items_def dest: parse_loop_raises
      split: json.splits sum.splits)

section \<open>Properties of \<^verbatim>\<open>fetch_rates\<close>\<close>

lemma fetch_rates_Body:
  "fetch_rates (Body data) date =
     (case parse_response data date of Inl e \<Rightarrow> (Inl e, []) | Inr r \<Rightarrow> (Inr r, []))"
proof (cases "parse_response data date")
  case (Inl e)
  from parse_response_raises[OF this] Inl show ?thesis
    by (auto simp: fetch_rates_def try_block_def)
next
  case (Inr r)
  then show ?thesis by (simp add: fetch_rates_def try_block_def)
qed

lemma fetch_rates_ClientError:
  "fetch_rates (Raised (ClientError msg)) date =
     (Inr [], [''Error fetching data for '' @ date @ '': '' @ msg])"
  by (simp add: fetch_rates_def try_block_def)

lemma fetch_rates_other:
  "\<forall>msg. e \<noteq> ClientError msg \<Longrightarrow> fetch_rates (Raised e) date = (Inl e, [])"
  by (cases e) (simp_all add: fetch_rates_def try_block_def)

lemma fetch_rates_nonempty:
  assumes "fst (fetch_rates resp date) = Inr r" and "r \<noteq> []"
  shows "\<exists>data rates. resp = Body data \<and> parse_response data date = Inr r \<and>
           r = [(date, rates)] \<and> rates \<noteq> []"
proof (cases resp)
  case (Raised e)
  with assms show ?thesis
    by (cases e) (simp_all add: fetch_rates_def try_block_def)
next
  case (Body data)
  with assms have p: "parse_response data date = Inr r"
    by (simp add: fetch_rates_Body split: sum.splits)
  from assms(2) obtain dt rates where "(dt, rates) \<in> set r"
    by (cases r) auto
  from parse_response_currencies[OF p this] Body p show ?thesis by blast
qed

section \<open>Properties of \<^verbatim>\<open>gather\<close>\<close>

lemma those_eq_Some: "(those xs = Some ys) = (xs = map Some ys)"
  by (induction xs arbitrary: ys) (auto split: option.splits)

lemma gather_returns:
  assumes "gather schedule tasks slots tr = Some (Inr results, tr')"
    and "length slots = length tasks"
    and "\<forall>k<length tasks. \<forall>r. slots ! k = Some r \<longrightarrow> fst (tasks ! k) = Inr r"
  shows "map fst tasks = map Inr results"
  using assms
proof (induction schedule arbitrary: slots tr)
  case Nil
  then have slots: "slots = map Some results"
    by (auto simp: those_eq_Some)
  with Nil.prems(2) have len: "length results = length tasks"
    by simp
  show ?case
  proof (rule nth_equalityI)
    show "length (map fst tasks) = length (map Inr results)"
      using len by simp
  next
    fix k assume "k < length (map fst tasks)"
    then have k: "k < length tasks" by simp
    with slots len have "slots ! k = Some (results ! k)" by simp
    with Nil.prems(3) k have "fst (tasks ! k) = Inr (results ! k)" by blast
    with k len show "map fst tasks ! k = map Inr results ! k" by simp
  qed
next
  case (Cons k schedule)
  show ?case
  proof (cases "k < length tasks")
    case False
    with Cons.prems(1) have "gather schedule tasks slots tr = Some (Inr results, tr')"
      by simp
    from Cons.IH[OF this Cons.prems(2,3)] show ?thesis .
  next
    case True
    obtain res printed where task: "tasks ! k = (res, printed)"
      by (cases "tasks ! k")
    show ?thesis
    proof (cases res)
      case (Inl e)
      with Cons.prems(1) True task show ?thesis by simp
    next
      case (Inr r)
      with Cons.prems(1) True task
      have run: "gather schedule tasks (slots[k := Some r]) (tr @ map Print printed) = Some (Inr results, tr')"
        by simp
      have len: "length (slots[k := Some r]) = length tasks"
        using Cons.prems(2) by simp
      have inv: "\<forall>j<length tasks. \<forall>r'. (slots[k := Some r]) ! j = Some r' \<longrightarrow> fst (tasks ! j) = Inr r'"
      proof (intro allI impI)
        fix j r' assume j: "j < length tasks" and s: "(slots[k := Some r]) ! j = Some r'"
        show "fst (tasks ! j) = Inr r'"
        proof (cases "j = k")
          case True
          with s j Cons.prems(2) have "r' = r" by simp
          with True task Inr show ?thesis by simp
        next
          case False
          with s have "slots ! j = Some r'" by simp
          with Cons.prems(3) j show ?thesis by blast
        qed
      qed
      from Cons.IH[OF run len inv] show ?thesis .
    qed
  qed
qed

lemma gather_raises:
  "gather schedule tasks slots tr = Some (Inl e, tr') \<Longrightarrow>
   \<exists>k\<in>set schedule. k < length tasks \<and> fst (tasks ! k) = Inl e"
proof (induction schedule arbitrary: slots tr)
  case Nil
  then show ?case by auto
next
  case (Cons k schedule)
  show ?case
  proof (cases "k < length tasks")
    case False
    with Cons.prems have "gather schedule tasks slots tr = Some (Inl e, tr')"
      by simp
    from Cons.IH[OF this] show ?thesis by auto
  next
    case True
    obtain res printed where task: "tasks ! k = (res, printed)"
      by (cases "tasks ! k")
    show ?thesis
    proof (cases res)
      case (Inl e')
      with Cons.prems True task have "e' = e" by simp
      with Inl True task show ?thesis by auto
    next
      case (Inr r)
      with Cons.prems True task
      have "gather schedule tasks (slots[k := Some r]) (tr @ map Print printed) = Some (Inl e, tr')"
        by simp
      from Cons.IH[OF this] show ?thesis by auto
    qed
  qed
qed

lemma gather_completes:
  assumes "map fst tasks = map Inr results"
    and "length slots = length tasks"
    and "\<forall>k<length tasks. slots ! k = None \<longrightarrow> k \<in> set schedule"
    and "\<forall>k<length tasks. \<forall>r. slots ! k = Some r \<longrightarrow> r = results ! k"
  shows "\<exists>tr'. gather schedule tasks slots tr = Some (Inr results, tr')"
  using assms(2-4)
proof (induction schedule arbitrary: slots tr)
  case Nil
  from assms(1) have len: "length results = length tasks"
    by (metis length_map)
  have "slots = map Some results"
  proof (rule nth_equalityI)
    show "length slots = length (map Some results)"
      using Nil.prems(1) len by simp
  next
    fix k assume "k < length slots"
    with Nil.prems(1) have k: "k < length tasks" by simp
    with Nil.prems(2) obtain r where "slots ! k = Some r" by auto
    with Nil.prems(3) k have "slots ! k = Some (results ! k)" by auto
    with k len show "slots ! k = map Some results ! k" by simp
  qed
  then show ?case by (simp add: those_eq_Some)
next
  case (Cons k schedule)
  from assms(1) have len: "length results = length tasks"
    by (metis length_map)
  show ?case
  proof (cases "k < length tasks")
    case False
    with Cons.prems(2) have "\<forall>j<length tasks. slots ! j = None \<longrightarrow> j \<in> set schedule"
      by auto
    from Cons.IH[OF Cons.prems(1) this Cons.prems(3)] False show ?thesis
      by simp
  next
    case True
    from assms(1) have "map fst tasks ! k = map Inr results ! k" by simp
    with True len have res: "fst (tasks ! k) = Inr (results ! k)" by simp
    then obtain printed where task: "tasks ! k = (Inr (results ! k), printed)"
      by (cases "tasks ! k") auto
    have l: "length (slots[k := Some (results ! k)]) = length tasks"
      using Cons.prems(1) by simp
    have a: "\<forall>j<length tasks. (slots[k := Some (results ! k)]) ! j = None \<longrightarrow> j \<in> set schedule"
    proof (intro allI impI)
      fix j assume j: "j < length tasks" and n: "(slots[k := Some (results ! k)]) ! j = None"
      with Cons.prems(1) have "j \<noteq> k" by auto
      with n have "slots ! j = None" by simp
      with Cons.prems(2) j \<open>j \<noteq> k\<close> show "j \<in> set schedule" by auto
    qed
    have b: "\<forall>j<length tasks. \<forall>r. (slots[k := Some (results ! k)]) ! j = Some r \<longrightarrow> r = results ! j"
    proof (intro allI impI)
      fix j r assume j: "j < length tasks" and s: "(slots[k := Some (results ! k)]) ! j = Some r"
      show "r = results ! j"
      proof (cases "j = k")
        case True
        with s j Cons.prems(1) show ?thesis by simp
      next
        case False
        with s have "slots ! j = Some r" by simp
        with Cons.prems(3) j show ?thesis by blast
      qed
    qed
    from Cons.IH[OF l a b, of "tr @ map Print printed"] True task show ?thesis
      by simp
  qed
qed

section \<open>Properties of \<^verbatim>\<open>get_rates_for_days\<close>\<close>

lemma length_date_range: "length (date_range clock days) = nat days"
  by (simp add: date_range_def)

lemma date_range_same_day:
  "\<forall>i<nat days. toordinal (clock i) = today \<Longrightarrow>
   date_range clock days = map (\<lambda>i. strftime_dmY (today - int i)) [0..<nat days]"
  by (simp add: date_range_def)

lemma nth_tasks:
  "k < length dates \<Longrightarrow>
   map (\<lambda>(k, date). fetcher k date) (enumerate 0 dates) ! k = fetcher k (dates ! k)"
  by (simp add: nth_enumerate_eq)

lemma get_rates_for_days_returns:
  assumes "1 \<le> days" and "days \<le> 10"
    and "get_rates_for_days fetcher clock schedule days = Some (Inr rs, tr)"
  shows "\<exists>results. length results = nat days \<and>
           (\<forall>k<nat days. fst (fetcher k (date_range clock days ! k)) = Inr (results ! k)) \<and>
           rs = filter (\<lambda>r. r \<noteq> []) results"
proof -
  let ?dates = "date_range clock days"
  let ?tasks = "map (\<lambda>(k, date). fetcher k date) (enumerate 0 ?dates)"
  from assms obtain results where
    g: "gather schedule ?tasks (replicate (length ?tasks) None) (map Fetch ?dates) = Some (Inr results, tr)"
    and rs: "rs = filter (\<lambda>r. r \<noteq> []) results"
    by (auto simp: get_rates_for_days_def Let_def split: option.splits sum.splits prod.splits)
  have eq: "map fst ?tasks = map Inr results"
    by (rule gather_returns[OF g]) simp_all
  from arg_cong[OF eq, of length] have len: "length results = length ?tasks"
    by simp
  have nth: "fst (?tasks ! k) = Inr (results ! k)" if "k < length ?tasks" for k
    using arg_cong[OF eq, of "\<lambda>xs. xs ! k"] that len by simp
  have l: "length ?tasks = nat days"
    by (simp add: length_date_range)
  have "\<forall>k<nat days. fst (fetcher k (?dates ! k)) = Inr (results ! k)"
  proof (intro allI impI)
    fix k assume k: "k < nat days"
    then have "?tasks ! k = fetcher k (?dates ! k)"
      by (intro nth_tasks) (simp add: length_date_range)
    with nth[of k] k l show "fst (fetcher k (?dates ! k)) = Inr (results ! k)"
      by simp
  qed
  with len l rs show ?thesis by auto
qed

lemma get_rates_for_days_completes:
  assumes "1 \<le> days" and "days \<le> 10"
    and "length results = nat days"
    and "\<forall>k<nat days. fst (fetcher k (date_range clock days ! k)) = Inr (results ! k)"
    and "\<forall>k<nat days. k \<in> set schedule"
  shows "\<exists>tr. get_rates_for_days fetcher clock schedule days =
           Some (Inr (filter (\<lambda>r. r \<noteq> []) results), tr)"
proof -
  let ?dates = "date_range clock days"
  let ?tasks = "map (\<lambda>(k, date). fetcher k date) (enumerate 0 ?dates)"
  have l: "length ?tasks = nat days"
    by (simp add: length_date_range)
  have "map fst ?tasks = map Inr results"
  proof (rule nth_equalityI)
    show "length (map fst ?tasks) = length (map Inr results)"
      using l assms(3) by simp
  next
    fix k assume "k < length (map fst ?tasks)"
    with l have k: "k < nat days" by simp
    then have "?tasks ! k = fetcher k (?dates ! k)"
      by (intro nth_tasks) (simp add: length_date_range)
    with assms(3,4) k l show "map fst ?tasks ! k = map Inr results ! k"
      by simp
  qed
  from gather_completes[OF this, of "replicate (length ?tasks) None" schedule "map Fetch ?dates"]
    assms(5) l
  obtain tr where "gather schedule ?tasks (replicate (length ?tasks) None) (map Fetch ?dates)
      = Some (Inr results, tr)"
    by auto
  with assms(1,2) show ?thesis
    by (simp add: get_rates_for_days_def Let_def)
qed

lemma subseq_keys:
  "length dates = length results \<Longrightarrow>
   \<forall>k<length results. results ! k \<noteq> [] \<longrightarrow> fst (hd (results ! k)) = dates ! k \<Longrightarrow>
   subseq (map (\<lambda>r. fst (hd r)) (filter (\<lambda>r. r \<noteq> []) results)) dates"
proof (induction dates results rule: list_induct2)
  case Nil
  then show ?case by simp
next
  case (Cons d dates r results)
  from Cons.prems have "\<forall>k<length results. results ! k \<noteq> [] \<longrightarrow> fst (hd (results ! k)) = dates ! k"
    by fastforce
  from Cons.IH[OF this] have IH: "subseq (map (\<lambda>r. fst (hd r)) (filter (\<lambda>r. r \<noteq> []) results)) dates" .
  show ?case
  proof (cases "r = []")
    case True
    with IH show ?thesis by (auto intro: list_emb_Cons)
  next
    case False
    with Cons.prems have "fst (hd r) = d" by fastforce
    with False IH show ?thesis by simp
  qed
qed

section \<open>The examples, evaluated\<close>

lemmas calendar_defs = strftime_dmY_def ord2ymd_def Let_def days_before_month_def
  days_in_month_def pad2_def pad4_def digit_def

lemma strftime_738956: "strftime_dmY 738956 = ''11.03.2024''"
  by (simp add: calendar_defs)

lemma strftime_738955: "strftime_dmY 738955 = ''10.03.2024''"
  by (simp add: calendar_defs)

lemma strftime_738954: "strftime_dmY 738954 = ''09.03.2024''"
  by (simp add: calendar_defs)

lemma strftime_738953: "strftime_dmY 738953 = ''08.03.2024''"
  by (simp add: calendar_defs)

lemma strftime_738952: "strftime_dmY 738952 = ''07.03.2024''"
  by (simp add: calendar_defs)

lemma upt_4: "[0..<4] = [0, 1, 2, 3]"
  by (simp add: upt_rec)

lemma date_range_noon_1: "date_range noon_clock 1 = [''10.03.2024'']"
  by (simp add: date_range_def noon_clock_def toordinal_def strftime_738955)

lemma date_range_noon_4:
  "date_range noon_clock 4 = [''10.03.2024'', ''09.03.2024'', ''08.03.2024'', ''07.03.2024'']"
  by (simp add: date_range_def noon_clock_def toordinal_def upt_4
      strftime_738955 strftime_738954 strftime_738953 strftime_738952)

lemmas run_defs = get_rates_for_days_def privat_fetcher_def fetch_rates_def try_block_def
  parse_response_def dict_get_def iter_items_def rate_record_of_def wanted_currencies_def

lemma patchy_run_a:
  "get_rates_for_days (privat_fetcher patchy_network) noon_clock [3, 1, 0, 2] 4 =
     Some (Inr [ [(''10.03.2024'', [(''EUR'', \<lparr>sale = JNum 42, purchase = JNum 41\<rparr>)])],
                [(''07.03.2024'', [(''EUR'', \<lparr>sale = JNum 42, purchase = JNum 41\<rparr>)])]],
           [Fetch ''10.03.2024'', Fetch ''09.03.2024'', Fetch ''08.03.2024'', Fetch ''07.03.2024'',
            Print ''Error fetching data for 09.03.2024: Cannot connect to host''])"
  by (simp add: run_defs date_range_noon_4 patchy_network_def)

lemma patchy_run_b:
  "get_rates_for_days (privat_fetcher patchy_network) noon_clock [0, 1, 2, 3] 4 =
     Some (Inr [ [(''10.03.2024'', [(''EUR'', \<lparr>sale = JNum 42, purchase = JNum 41\<rparr>)])],
                [(''07.03.2024'', [(''EUR'', \<lparr>sale = JNum 42, purchase = JNum 41\<rparr>)])]],
           [Fetch ''10.03.2024'', Fetch ''09.03.2024'', Fetch ''08.03.2024'', Fetch ''07.03.2024'',
            Print ''Error fetching data for 09.03.2024: Cannot connect to host''])"
  by (simp add: run_defs date_range_noon_4 patchy_network_def)

section \<open>The claims about the service\<close>

text \<open>
  Claim C1. A number of days below 1 or above 10 makes \<^verbatim>\<open>get_rates_for_days\<close> raise
  \<^verbatim>\<open>ValueError\<close> at once, whatever the fetcher, the clock and the network would do:
  nothing has happened by then, no call of \<^verbatim>\<open>fetch_rates\<close> and no printed line, and
  no date has been computed, the clock not having been read.
\<close>

theorem get_rates_for_days_rejects_days:
  "days < 1 \<or> days > 10 \<Longrightarrow>
   get_rates_for_days fetcher clock schedule days =
     Some (Inl (ValueError ''Number of days must be between 1 and 10''), [])"
  by (simp add: get_rates_for_days_def)

theorem get_rates_for_days_rejects_days_witness:
  "get_rates_for_days (privat_fetcher patchy_network) noon_clock [0] 0 =
     Some (Inl (ValueError ''Number of days must be between 1 and 10''), []) \<and>
   get_rates_for_days (privat_fetcher patchy_network) noon_clock [0] 11 =
     Some (Inl (ValueError ''Number of days must be between 1 and 10''), []) \<and>
   get_rates_for_days (privat_fetcher patchy_network) noon_clock [0] (- 1) =
     Some (Inl (ValueError ''Number of days must be between 1 and 10''), [])"
proof -
  have low: "(0 :: int) < 1 \<or> (0 :: int) > 10"
    and high: "(11 :: int) < 1 \<or> (11 :: int) > 10"
    and neg: "(- 1 :: int) < 1 \<or> (- 1 :: int) > 10"
    by simp_all
  from get_rates_for_days_rejects_days[OF low] get_rates_for_days_rejects_days[OF high]
    get_rates_for_days_rejects_days[OF neg]
  show ?thesis by blast
qed

text \<open>
  Claim C2. When \<^verbatim>\<open>get_rates_for_days\<close> returns for a number of days from 1 to 10, the
  list has at most that many elements and none of them is empty. Its elements are
  values returned by the fetches, and there are as many as there are fetches that
  returned a non-empty value: every empty result is left out. With the provider's
  fetcher, each element is the parsed body of a request that was answered, under the
  date of that request, with at least one currency; a request that failed, or whose
  answer had neither currency, has no element.
\<close>

theorem get_rates_for_days_drops_empty:
  assumes "1 \<le> days" and "days \<le> 10"
    and "get_rates_for_days fetcher clock schedule days = Some (Inr rs, tr)"
  shows "int (length rs) \<le> days \<and> [] \<notin> set rs \<and>
     (\<forall>r\<in>set rs. \<exists>k<nat days. fst (fetcher k (date_range clock days ! k)) = Inr r) \<and>
     length rs = card {k. k < nat days \<and> fst (fetcher k (date_range clock days ! k)) \<noteq> Inr []} \<and>
     (\<forall>transport. fetcher = privat_fetcher transport \<longrightarrow>
        (\<forall>r\<in>set rs. \<exists>k<nat days. \<exists>data rates.
           transport k (date_range clock days ! k) = Body data \<and>
           parse_response data (date_range clock days ! k) = Inr r \<and>
           r = [(date_range clock days ! k, rates)] \<and> rates \<noteq> []))"
proof -
  let ?dates = "date_range clock days"
  from get_rates_for_days_returns[OF assms] obtain results where
    len: "length results = nat days"
    and nth: "\<forall>k<nat days. fst (fetcher k (?dates ! k)) = Inr (results ! k)"
    and rs: "rs = filter (\<lambda>r. r \<noteq> []) results"
    by blast
  have "length rs \<le> nat days"
    using rs len length_filter_le[of "\<lambda>r. r \<noteq> []" results] by simp
  with assms(1) have bound: "int (length rs) \<le> days"
    by linarith
  from rs have nonempty: "[] \<notin> set rs"
    by simp
  have origin: "\<exists>k<nat days. fst (fetcher k (?dates ! k)) = Inr r" if "r \<in> set rs" for r
  proof -
    from that rs have "r \<in> set results" by simp
    then obtain k where "k < length results" "results ! k = r"
      by (auto simp: in_set_conv_nth)
    with len nth show ?thesis by auto
  qed
  have "{k. k < nat days \<and> fst (fetcher k (?dates ! k)) \<noteq> Inr []}
      = {k. k < length results \<and> results ! k \<noteq> []}"
    using len nth by auto
  with rs have count: "length rs = card {k. k < nat days \<and> fst (fetcher k (?dates ! k)) \<noteq> Inr []}"
    by (simp add: length_filter_conv_card)
  have provider: "\<exists>k<nat days. \<exists>data rates. transport k (?dates ! k) = Body data \<and>
           parse_response data (?dates ! k) = Inr r \<and> r = [(?dates ! k, rates)] \<and> rates \<noteq> []"
    if f: "fetcher = privat_fetcher transport" and r: "r \<in> set rs" for transport r
  proof -
    from origin[OF r] obtain k where k: "k < nat days"
      and "fst (fetcher k (?dates ! k)) = Inr r"
      by blast
    with f have "fst (fetch_rates (transport k (?dates ! k)) (?dates ! k)) = Inr r"
      by (simp add: privat_fetcher_def)
    moreover from r nonempty have "r \<noteq> []" by auto
    ultimately show ?thesis
      using fetch_rates_nonempty k by blast
  qed
  from bound nonempty origin count provider show ?thesis
    by blast
qed

theorem get_rates_for_days_drops_empty_witness:
  "get_rates_for_days (privat_fetcher patchy_network) noon_clock [3, 1, 0, 2] 4 =
     Some (Inr [ [(''10.03.2024'', [(''EUR'', \<lparr>sale = JNum 42, purchase = JNum 41\<rparr>)])],
                [(''07.03.2024'', [(''EUR'', \<lparr>sale = JNum 42, purchase = JNum 41\<rparr>)])]],
           [Fetch ''10.03.2024'', Fetch ''09.03.2024'', Fetch ''08.03.2024'', Fetch ''07.03.2024'',
            Print ''Error fetching data for 09.03.2024: Cannot connect to host'']) \<and>
   card {k. k < nat 4 \<and>
            fst (privat_fetcher patchy_network k (date_range noon_clock 4 ! k)) \<noteq> Inr []} = 2"
proof -
  have lo: "(1 :: int) \<le> 4" and hi: "(4 :: int) \<le> 10"
    by simp_all
  from get_rates_for_days_drops_empty[OF lo hi patchy_run_a]
  have "length [ [(''10.03.2024'', [(''EUR'', \<lparr>sale = JNum (42 :: int), purchase = JNum 41\<rparr>)])],
                [(''07.03.2024'', [(''EUR'', \<lparr>sale = JNum 42, purchase = JNum 41\<rparr>)])]] =
        card {k. k < nat 4 \<and>
            fst (privat_fetcher patchy_network k (date_range noon_clock 4 ! k)) \<noteq> Inr []}"
    by (elim conjE)
  then have count: "card {k. k < nat 4 \<and>
            fst (privat_fetcher patchy_network k (date_range noon_clock 4 ! k)) \<noteq> Inr []} = 2"
    by simp
  show ?thesis
    by (rule conjI[OF patchy_run_a count])
qed

text \<open>
  Claim C3. When \<^verbatim>\<open>get_rates_for_days\<close> returns, the list is the results of the fetches in
  the order of the dates of line 47, the empty ones left out, whatever the order in
  which the fetches finished: another order of finishing gives the same list. With
  the provider's fetcher the dates of the elements, read in order, are a subsequence
  of the dates of line 47; and those dates are today, yesterday and so on down to the
  oldest when the readings of the clock fall on one day.
\<close>

theorem get_rates_for_days_keeps_date_order:
  assumes "1 \<le> days" and "days \<le> 10"
    and "get_rates_for_days fetcher clock schedule days = Some (Inr rs, tr)"
  shows "(\<exists>results. length results = nat days \<and>
            (\<forall>k<nat days. fst (fetcher k (date_range clock days ! k)) = Inr (results ! k)) \<and>
            rs = filter (\<lambda>r. r \<noteq> []) results) \<and>
     (\<forall>schedule' rs' tr'.
        get_rates_for_days fetcher clock schedule' days = Some (Inr rs', tr') \<longrightarrow> rs' = rs) \<and>
     (\<forall>transport. fetcher = privat_fetcher transport \<longrightarrow>
        subseq (map (\<lambda>r. fst (hd r)) rs) (date_range clock days)) \<and>
     (\<forall>today. (\<forall>i<nat days. toordinal (clock i) = today) \<longrightarrow>
        date_range clock days = map (\<lambda>i. strftime_dmY (today - int i)) [0..<nat days])"
proof -
  let ?dates = "date_range clock days"
  from get_rates_for_days_returns[OF assms] obtain results where
    len: "length results = nat days"
    and nth: "\<forall>k<nat days. fst (fetcher k (?dates ! k)) = Inr (results ! k)"
    and rs: "rs = filter (\<lambda>r. r \<noteq> []) results"
    by blast
  have same: "rs' = rs"
    if "get_rates_for_days fetcher clock schedule' days = Some (Inr rs', tr')" for schedule' rs' tr'
  proof -
    from get_rates_for_days_returns[OF assms(1,2) that] obtain results' where
      len': "length results' = nat days"
      and nth': "\<forall>k<nat days. fst (fetcher k (?dates ! k)) = Inr (results' ! k)"
      and rs': "rs' = filter (\<lambda>r. r \<noteq> []) results'"
      by blast
    have "results' = results"
    proof (rule nth_equalityI)
      show "length results' = length results" using len len' by simp
    next
      fix k assume "k < length results'"
      with len' have "k < nat days" by simp
      with nth nth' have "(Inr (results' ! k) :: py_exception + _) = Inr (results ! k)"
        by metis
      then show "results' ! k = results ! k" by simp
    qed
    with rs rs' show ?thesis by simp
  qed
  have keys: "subseq (map (\<lambda>r. fst (hd r)) rs) ?dates" if f: "fetcher = privat_fetcher transport"
    for transport
  proof -
    have "\<forall>k<length results. results ! k \<noteq> [] \<longrightarrow> fst (hd (results ! k)) = ?dates ! k"
    proof (intro allI impI)
      fix k assume k: "k < length results" and ne: "results ! k \<noteq> []"
      with len nth f have "fst (fetch_rates (transport k (?dates ! k)) (?dates ! k)) = Inr (results ! k)"
        by (simp add: privat_fetcher_def)
      from fetch_rates_nonempty[OF this ne] show "fst (hd (results ! k)) = ?dates ! k"
        by auto
    qed
    with subseq_keys[of ?dates results] len rs show ?thesis
      by (simp add: length_date_range)
  qed
  from len nth rs same keys date_range_same_day[of days clock] show ?thesis
    by blast
qed

theorem get_rates_for_days_keeps_date_order_witness:
  "get_rates_for_days (privat_fetcher patchy_network) noon_clock [0, 1, 2, 3] 4 =
     get_rates_for_days (privat_fetcher patchy_network) noon_clock [3, 1, 0, 2] 4 \<and>
   subseq [''10.03.2024'', ''07.03.2024'']
     [''10.03.2024'', ''09.03.2024'', ''08.03.2024'', ''07.03.2024''] \<and>
   date_range noon_clock 4 = map (\<lambda>i. strftime_dmY (738955 - int i)) [0..<nat 4]"
proof -
  let ?rs = "[ [(''10.03.2024'', [(''EUR'', \<lparr>sale = JNum (42 :: int), purchase = JNum 41\<rparr>)])],
              [(''07.03.2024'', [(''EUR'', \<lparr>sale = JNum 42, purchase = JNum 41\<rparr>)])]]"
  have lo: "(1 :: int) \<le> 4" and hi: "(4 :: int) \<le> 10"
    by simp_all
  note t = get_rates_for_days_keeps_date_order[OF lo hi patchy_run_a]
  have day: "\<forall>i<nat 4. toordinal (noon_clock i) = 738955"
    by (simp add: toordinal_def noon_clock_def)
  from t have "subseq (map (\<lambda>r. fst (hd r)) ?rs) (date_range noon_clock 4)"
    by blast
  then have keys: "subseq [''10.03.2024'', ''07.03.2024'']
     [''10.03.2024'', ''09.03.2024'', ''08.03.2024'', ''07.03.2024'']"
    by (simp only: date_range_noon_4 list.map hd_conv_nth fst_conv list.sel)
  from t day have dates: "date_range noon_clock 4 = map (\<lambda>i. strftime_dmY (738955 - int i)) [0..<nat 4]"
    by blast
  from patchy_run_a patchy_run_b
  have "get_rates_for_days (privat_fetcher patchy_network) noon_clock [0, 1, 2, 3] 4 =
     get_rates_for_days (privat_fetcher patchy_network) noon_clock [3, 1, 0, 2] 4"
    by (simp only:)
  with keys dates show ?thesis
    by (intro conjI)
qed

text \<open>
  Claim C4. Line 47 reads the clock anew for every \<^verbatim>\<open>i\<close>, so the dates are those of one
  day and the days before it only while the readings fall on one day (lemma
  \<open>date_range_same_day\<close>). With a first reading ten microseconds before midnight and
  the second after it, the second date is the day before the new day: the same date
  twice, and the day of the second reading is missing.
\<close>

theorem date_range_midnight_duplicate:
  "strftime_dmY (toordinal (midnight_clock 0)) = ''10.03.2024'' \<and>
   strftime_dmY (toordinal (midnight_clock 1)) = ''11.03.2024'' \<and>
   date_range midnight_clock 2 = [''10.03.2024'', ''10.03.2024'']"
  by (simp add: date_range_def midnight_clock_def toordinal_def upt_rec
      strftime_738955 strftime_738956)

text \<open>
  Claim C7, as the code has it. With the provider's fetcher over a network on which
  every request raises \<^verbatim>\<open>aiohttp.ClientError\<close>, \<^verbatim>\<open>get_rates_for_days\<close> returns the empty
  list for every number of days from 1 to 10, once every fetch has finished.
\<close>

theorem get_rates_for_days_all_requests_fail:
  assumes "1 \<le> days" and "days \<le> 10"
    and "\<forall>k date. \<exists>msg. transport k date = Raised (ClientError msg)"
    and "\<forall>k<nat days. k \<in> set schedule"
  shows "\<exists>tr. get_rates_for_days (privat_fetcher transport) clock schedule days = Some (Inr [], tr)"
proof -
  let ?results = "replicate (nat days) ([] :: 'a daily_rates)"
  have "\<forall>k<nat days.
      fst (privat_fetcher transport k (date_range clock days ! k)) = Inr (?results ! k)"
  proof (intro allI impI)
    fix k assume k: "k < nat days"
    from assms(3) obtain msg where "transport k (date_range clock days ! k) = Raised (ClientError msg)"
      by blast
    with k show "fst (privat_fetcher transport k (date_range clock days ! k)) = Inr (?results ! k)"
      by (simp add: privat_fetcher_def fetch_rates_ClientError)
  qed
  moreover have "length ?results = nat days"
    by simp
  ultimately have "\<exists>tr. get_rates_for_days (privat_fetcher transport) clock schedule days =
      Some (Inr (filter (\<lambda>r. r \<noteq> []) ?results), tr)"
    using get_rates_for_days_completes[OF assms(1,2) _ _ assms(4)] by blast
  then show ?thesis by simp
qed

theorem get_rates_for_days_all_requests_fail_witness:
  "\<exists>tr. get_rates_for_days (privat_fetcher unreachable_network) noon_clock [2, 0, 1] 3 =
     Some (Inr [], tr)"
proof -
  have lo: "(1 :: int) \<le> 3" and hi: "(3 :: int) \<le> 10"
    by simp_all
  have fail: "\<forall>k date. \<exists>msg. unreachable_network k date = Raised (ClientError msg)"
    by (simp add: unreachable_network_def)
  have all: "\<forall>k<nat 3. k \<in> set [2, 0, 1]"
    by (auto simp: less_Suc_eq numeral_3_eq_3)
  from get_rates_for_days_all_requests_fail[OF lo hi fail all]
  show ?thesis .
qed

theorem get_rates_for_days_stub_counterexample:
  "get_rates_for_days raising_stub noon_clock [0] 1 =
     Some (Inl (ClientError ''Cannot connect to host''), [Fetch ''10.03.2024''])"
  by (simp add: get_rates_for_days_def date_range_noon_1 raising_stub_def)

section \<open>The claims about the provider's fetcher\<close>

text \<open>
  Claim C5. For a response whose \<^verbatim>\<open>exchangeRate\<close> field is an array, the parser returns
  exactly when every entry of the array is an object, and the currencies of its result
  are exactly the strings \<^verbatim>\<open>EUR\<close> and \<^verbatim>\<open>USD\<close> that occur as the \<^verbatim>\<open>currency\<close> field of an
  entry: entries of another currency, or without the field, leave no trace. Whatever
  the response, the keys of a returned value lie in \<^verbatim>\<open>EUR\<close>, \<^verbatim>\<open>USD\<close>, under the
  requested date.
\<close>

theorem parse_response_keeps_eur_usd:
  assumes "map_of d ''exchangeRate'' = Some (JArr entries)"
  shows "((\<exists>r. parse_response (JObj d) date = Inr r) = (\<forall>x\<in>set entries. \<exists>rate. x = JObj rate)) \<and>
         (\<forall>r. parse_response (JObj d) date = Inr r \<longrightarrow>
            (\<Union>(dt, rates)\<in>set r. fst ` set rates) =
              {c \<in> {''EUR'', ''USD''}.
                 \<exists>rate. JObj rate \<in> set entries \<and> map_of rate ''currency'' = Some (JStr c)}) \<and>
         (\<forall>data r dt rates. parse_response data date = Inr r \<longrightarrow> (dt, rates) \<in> set r \<longrightarrow>
            dt = date \<and> fst ` set rates \<subseteq> {''EUR'', ''USD''})"
proof (intro conjI allI impI)
  show "(\<exists>r. parse_response (JObj d) date = Inr r) = (\<forall>x\<in>set entries. \<exists>rate. x = JObj rate)"
    using parse_loop_returns[of entries "[]"]
    by (auto simp: parse_response_array[OF assms] split: sum.splits)
next
  fix r :: "'a daily_rates"
  assume "parse_response (JObj d) date = Inr r"
  then obtain rates where run: "parse_loop entries [] = Inr rates"
    and r: "r = (if rates \<noteq> [] then [(date, rates)] else [])"
    by (auto simp: parse_response_array[OF assms] split: sum.splits)
  from r have "(\<Union>(dt, rates)\<in>set r. fst ` set rates) = fst ` set rates"
    by simp
  with parse_loop_keys[OF run]
  show "(\<Union>(dt, rates)\<in>set r. fst ` set rates) =
          {c \<in> {''EUR'', ''USD''}.
             \<exists>rate. JObj rate \<in> set entries \<and> map_of rate ''currency'' = Some (JStr c)}"
    by (simp add: wanted_currencies_def)
next
  fix data :: "'b json" and r dt rates
  assume "parse_response data date = Inr r" "(dt, rates) \<in> set r"
  from parse_response_currencies[OF this]
  show "dt = date" "fst ` set rates \<subseteq> {''EUR'', ''USD''}"
    by (simp_all add: wanted_currencies_def)
qed

theorem parse_response_keeps_eur_usd_witness:
  "parse_response
     (JObj [(''date'', JStr ''01.12.2014''),
            (''exchangeRate'',
             JArr [JObj [(''currency'', JStr ''GBP''), (''saleRate'', JNum (24 :: int))],
                   JObj [(''baseCurrency'', JStr ''UAH'')],
                   JObj [(''currency'', JStr ''EUR''), (''saleRate'', JNum 20),
                         (''purchaseRate'', JNum 19)]])])
     ''01.12.2014''
   = Inr [(''01.12.2014'', [(''EUR'', \<lparr>sale = JNum 20, purchase = JNum 19\<rparr>)])] \<and>
   {c \<in> {''EUR'', ''USD''}.
      \<exists>rate. JObj rate \<in> set [JObj [(''currency'', JStr ''GBP''), (''saleRate'', JNum (24 :: int))],
                                JObj [(''baseCurrency'', JStr ''UAH'')],
                                JObj [(''currency'', JStr ''EUR''), (''saleRate'', JNum 20),
                                      (''purchaseRate'', JNum 19)]]
             \<and> map_of rate ''currency'' = Some (JStr c)} = {''EUR''}"
proof -
  let ?entries = "[JObj [(''currency'', JStr ''GBP''), (''saleRate'', JNum (24 :: int))],
                   JObj [(''baseCurrency'', JStr ''UAH'')],
                   JObj [(''currency'', JStr ''EUR''), (''saleRate'', JNum 20),
                         (''purchaseRate'', JNum 19)]]"
  let ?d = "[(''date'', JStr ''01.12.2014''), (''exchangeRate'', JArr ?entries)]"
  let ?r = "[(''01.12.2014'', [(''EUR'', \<lparr>sale = JNum (20 :: int), purchase = JNum 19\<rparr>)])]"
  have field: "map_of ?d ''exchangeRate'' = Some (JArr ?entries)"
    by simp
  have run: "parse_response (JObj ?d) ''01.12.2014'' = Inr ?r"
    by (simp add: parse_response_def dict_get_def iter_items_def rate_record_of_def
        wanted_currencies_def)
  note t = parse_response_keeps_eur_usd[OF field, of "''01.12.2014''"]
  have lhs: "(\<Union>(dt, rates)\<in>set ?r. fst ` set rates) = {''EUR''}"
    by simp
  from t[THEN conjunct2, THEN conjunct1, THEN spec, THEN mp, OF run]
  have "{''EUR''} = {c \<in> {''EUR'', ''USD''}.
             \<exists>rate. JObj rate \<in> set ?entries \<and> map_of rate ''currency'' = Some (JStr c)}"
    by (simp only: lhs)
  from conjI[OF run this[symmetric]] show ?thesis .
qed

text \<open>
  Claim C6, as the code has it. What \<^verbatim>\<open>fetch_rates\<close> recovers from is
  \<^verbatim>\<open>aiohttp.ClientError\<close> alone: one diagnostic line and the empty result. Any other
  exception of the request or of the decoding (\<^verbatim>\<open>json.JSONDecodeError\<close> for a body that is
  not JSON) leaves \<^verbatim>\<open>fetch_rates\<close> as it is, with nothing printed; so do the exceptions
  of the parser, which are \<^verbatim>\<open>AttributeError\<close> (the body is not an object, an entry of the
  array is not an object) and \<^verbatim>\<open>TypeError\<close> (\<^verbatim>\<open>exchangeRate\<close> is null, a boolean or a
  number). An object without \<^verbatim>\<open>exchangeRate\<close> gives the empty result and no diagnostic.
\<close>

theorem fetch_rates_recovers_ClientError_only:
  "fetch_rates (Raised (ClientError msg)) date =
     (Inr [], [''Error fetching data for '' @ date @ '': '' @ msg]) \<and>
   ((\<forall>m. e \<noteq> ClientError m) \<longrightarrow> fetch_rates (Raised e) date = (Inl e, [])) \<and>
   (\<forall>e'. parse_response bad date = Inl e' \<longrightarrow>
      (e' = AttributeError \<or> e' = TypeError) \<and> fetch_rates (Body bad) date = (Inl e', [])) \<and>
   (\<forall>r. parse_response good date = Inr r \<longrightarrow> fetch_rates (Body good) date = (Inr r, [])) \<and>
   ((\<forall>d. other \<noteq> JObj d) \<longrightarrow> parse_response other date = Inl AttributeError) \<and>
   (map_of d0 ''exchangeRate'' = None \<longrightarrow> fetch_rates (Body (JObj d0)) date = (Inr [], [])) \<and>
   (map_of d1 ''exchangeRate'' = Some v \<longrightarrow> v = JNull \<or> (\<exists>b. v = JBool b) \<or> (\<exists>n. v = JNum n) \<longrightarrow>
      parse_response (JObj d1) date = Inl TypeError) \<and>
   (map_of d2 ''exchangeRate'' = Some (JArr entries) \<longrightarrow> (\<exists>x\<in>set entries. \<forall>rate. x \<noteq> JObj rate) \<longrightarrow>
      parse_response (JObj d2) date = Inl AttributeError)"
proof (intro conjI allI impI)
  show "fetch_rates (Raised (ClientError msg)) date =
     (Inr [], [''Error fetching data for '' @ date @ '': '' @ msg])"
    by (rule fetch_rates_ClientError)
next
  assume "\<forall>m. e \<noteq> ClientError m"
  then show "fetch_rates (Raised e) date = (Inl e, [])"
    by (rule fetch_rates_other)
next
  fix e' assume p: "parse_response bad date = Inl e'"
  from parse_response_raises[OF p] show "e' = AttributeError \<or> e' = TypeError" .
  from p show "fetch_rates (Body bad) date = (Inl e', [])"
    by (simp add: fetch_rates_Body)
next
  fix r assume "parse_response good date = Inr r"
  then show "fetch_rates (Body good) date = (Inr r, [])"
    by (simp add: fetch_rates_Body)
next
  assume "\<forall>d. other \<noteq> JObj d"
  then show "parse_response other date = Inl AttributeError"
    by (cases other) (simp_all add: parse_response_def)
next
  assume "map_of d0 ''exchangeRate'' = None"
  then have "parse_response (JObj d0) date = Inr []"
    by (simp add: parse_response_def dict_get_def iter_items_def)
  then show "fetch_rates (Body (JObj d0)) date = (Inr [], [])"
    by (simp add: fetch_rates_Body)
next
  assume "map_of d1 ''exchangeRate'' = Some v" "v = JNull \<or> (\<exists>b. v = JBool b) \<or> (\<exists>n. v = JNum n)"
  then show "parse_response (JObj d1) date = Inl TypeError"
    by (auto simp: parse_response_def dict_get_def iter_items_def)
next
  assume field: "map_of d2 ''exchangeRate'' = Some (JArr entries)"
    and bad: "\<exists>x\<in>set entries. \<forall>rate. x \<noteq> JObj rate"
  from bad parse_loop_returns[of entries "[]"]
  obtain e' where l: "parse_loop entries [] = Inl e'"
    by (cases "parse_loop entries []") auto
  from parse_loop_raises[OF l] l
  show "parse_response (JObj d2) date = Inl AttributeError"
    by (simp add: parse_response_array[OF field])
qed

theorem fetch_rates_recovers_ClientError_only_witness:
  "fetch_rates (Raised (ClientError ''Cannot connect to host'') :: int http_outcome) ''10.03.2024'' =
     (Inr [], [''Error fetching data for 10.03.2024: Cannot connect to host'']) \<and>
   fetch_rates (Raised (JSONDecodeError ''Expecting value'') :: int http_outcome) ''10.03.2024'' =
     (Inl (JSONDecodeError ''Expecting value''), []) \<and>
   fetch_rates (Body (JArr [] :: int json)) ''10.03.2024'' = (Inl AttributeError, []) \<and>
   fetch_rates (Body (JObj [(''exchangeRate'', JArr [])] :: int json)) ''10.03.2024'' = (Inr [], []) \<and>
   parse_response (JStr ''Service unavailable'' :: int json) ''10.03.2024'' = Inl AttributeError \<and>
   fetch_rates (Body (JObj [(''error'', JStr ''no data'')] :: int json)) ''10.03.2024'' = (Inr [], []) \<and>
   parse_response (JObj [(''exchangeRate'', JNull)] :: int json) ''10.03.2024'' = Inl TypeError \<and>
   parse_response (JObj [(''exchangeRate'', JArr [JNum 1])] :: int json) ''10.03.2024'' =
     Inl AttributeError"
proof -
  let ?date = "''10.03.2024''"
  note t = fetch_rates_recovers_ClientError_only[
      where msg = "''Cannot connect to host''" and date = ?date
        and e = "JSONDecodeError ''Expecting value''"
        and bad = "JArr [] :: int json"
        and good = "JObj [(''exchangeRate'', JArr [])] :: int json"
        and other = "JStr ''Service unavailable'' :: int json"
        and ?d0.0 = "[(''error'', JStr ''no data'')] :: (string \<times> int json) list"
        and ?d1.0 = "[(''exchangeRate'', JNull)] :: (string \<times> int json) list" and v = "JNull :: int json"
        and ?d2.0 = "[(''exchangeRate'', JArr [JNum 1])] :: (string \<times> int json) list"
        and entries = "[JNum 1] :: int json list"]
  have h2: "\<forall>m. JSONDecodeError ''Expecting value'' \<noteq> ClientError m"
    by simp
  have h3: "parse_response (JArr [] :: int json) ?date = Inl AttributeError"
    by (simp add: parse_response_def)
  have h4: "parse_response (JObj [(''exchangeRate'', JArr [])] :: int json) ?date = Inr []"
    by (simp add: parse_response_def dict_get_def iter_items_def)
  have h5: "\<forall>d. (JStr ''Service unavailable'' :: int json) \<noteq> JObj d"
    by simp
  have h6: "map_of [(''error'', JStr ''no data'' :: int json)] ''exchangeRate'' = None"
    by simp
  have h7: "map_of [(''exchangeRate'', JNull :: int json)] ''exchangeRate'' = Some JNull"
    and h7': "(JNull :: int json) = JNull \<or> (\<exists>b. (JNull :: int json) = JBool b)
       \<or> (\<exists>n. (JNull :: int json) = JNum n)"
    by simp_all
  have h8: "map_of [(''exchangeRate'', JArr [JNum (1 :: int)])] ''exchangeRate'' = Some (JArr [JNum 1])"
    and h8': "\<exists>x\<in>set [JNum (1 :: int)]. \<forall>rate. x \<noteq> JObj rate"
    by simp_all
  note c1 = t[THEN conjunct1]
    and c2 = t[THEN conjunct2, THEN conjunct1, THEN mp, OF h2]
    and c3 = t[THEN conjunct2, THEN conjunct2, THEN conjunct1, THEN spec, THEN mp, OF h3, THEN conjunct2]
    and c4 = t[THEN conjunct2, THEN conjunct2, THEN conjunct2, THEN conjunct1, THEN spec, THEN mp, OF h4]
    and c5 = t[THEN conjunct2, THEN conjunct2, THEN conjunct2, THEN conjunct2, THEN conjunct1, THEN mp, OF h5]
    and c6 = t[THEN conjunct2, THEN conjunct2, THEN conjunct2, THEN conjunct2, THEN conjunct2, THEN conjunct1, THEN mp, OF h6]
    and c7 = t[THEN conjunct2, THEN conjunct2, THEN conjunct2, THEN conjunct2, THEN conjunct2, THEN conjunct2, THEN conjunct1, THEN mp, THEN mp, OF h7 h7']
    and c8 = t[THEN conjunct2, THEN conjunct2, THEN conjunct2, THEN conjunct2, THEN conjunct2, THEN conjunct2, THEN conjunct2, THEN mp, THEN mp, OF h8 h8']
  from c1 c2 c3 c4 c5 c6 c7 c8 show ?thesis
    by simp
qed

theorem fetch_rates_malformed_counterexample:
  "fetch_rates (Body (JObj [(''exchangeRate'', JNull)] :: int json)) ''10.03.2024'' =
     (Inl TypeError, []) \<and>
   fetch_rates (Body (JArr [] :: int json)) ''10.03.2024'' = (Inl AttributeError, []) \<and>
   fetch_rates (Raised (JSONDecodeError ''Expecting value: line 1 column 1 (char 0)'')
                  :: int http_outcome) ''10.03.2024'' =
     (Inl (JSONDecodeError ''Expecting value: line 1 column 1 (char 0)''), []) \<and>
   get_rates_for_days (privat_fetcher non_object_network) noon_clock [0] 1 =
     Some (Inl AttributeError, [Fetch ''10.03.2024''])"
  by (simp add: fetch_rates_def try_block_def parse_response_def dict_get_def iter_items_def
      get_rates_for_days_def date_range_noon_1 privat_fetcher_def non_object_network_def)

text \<open>
  Claim C8. Every record of a parsed response comes from an entry of the array with
  that currency, and its \<^verbatim>\<open>sale\<close> and \<^verbatim>\<open>purchase\<close> are the entry's \<^verbatim>\<open>saleRate\<close> and
  \<^verbatim>\<open>purchaseRate\<close> as they are: a field that is absent gives \<^verbatim>\<open>None\<close>, never a number.
\<close>

theorem parse_response_absent_rate_is_None:
  assumes "map_of d ''exchangeRate'' = Some (JArr entries)"
    and "parse_response (JObj d) date = Inr r"
    and "(dt, rates) \<in> set r"
    and "(c, rr) \<in> set rates"
  shows "\<exists>rate. JObj rate \<in> set entries \<and> map_of rate ''currency'' = Some (JStr c) \<and>
           (case map_of rate ''saleRate'' of
              None \<Rightarrow> sale rr = JNull \<and> (\<forall>x. sale rr \<noteq> JNum x)
            | Some v \<Rightarrow> sale rr = v) \<and>
           (case map_of rate ''purchaseRate'' of
              None \<Rightarrow> purchase rr = JNull \<and> (\<forall>x. purchase rr \<noteq> JNum x)
            | Some v \<Rightarrow> purchase rr = v)"
proof -
  from assms(2) obtain rates' where run: "parse_loop entries [] = Inr rates'"
    and r: "r = (if rates' \<noteq> [] then [(date, rates')] else [])"
    by (auto simp: parse_response_array[OF assms(1)] split: sum.splits)
  from r assms(3) have "rates' = rates"
    by (simp split: if_splits)
  with run assms(4) parse_loop_origin[of entries "[]" rates c rr]
  obtain rate where "JObj rate \<in> set entries" "map_of rate ''currency'' = Some (JStr c)"
    "rr = rate_record_of rate"
    by auto
  then show ?thesis
    by (auto simp: rate_record_of_def dict_get_def split: option.splits)
qed

theorem parse_response_absent_rate_is_None_witness:
  "parse_response
     (JObj [(''exchangeRate'',
             JArr [JObj [(''currency'', JStr ''EUR''), (''purchaseRate'', JNum (19 :: int))]])])
     ''01.12.2014''
     = Inr [(''01.12.2014'', [(''EUR'', \<lparr>sale = JNull, purchase = JNum 19\<rparr>)])] \<and>
   (\<exists>rate. JObj rate \<in> set [JObj [(''currency'', JStr ''EUR''), (''purchaseRate'', JNum (19 :: int))]] \<and>
      map_of rate ''currency'' = Some (JStr ''EUR'') \<and>
      (case map_of rate ''saleRate'' of
         None \<Rightarrow> sale \<lparr>sale = JNull, purchase = JNum (19 :: int)\<rparr> = JNull \<and>
           (\<forall>x. sale \<lparr>sale = JNull, purchase = JNum (19 :: int)\<rparr> \<noteq> JNum x)
       | Some v \<Rightarrow> sale \<lparr>sale = JNull, purchase = JNum (19 :: int)\<rparr> = v) \<and>
      (case map_of rate ''purchaseRate'' of
         None \<Rightarrow> purchase \<lparr>sale = JNull, purchase = JNum (19 :: int)\<rparr> = JNull \<and>
           (\<forall>x. purchase \<lparr>sale = JNull, purchase = JNum (19 :: int)\<rparr> \<noteq> JNum x)
       | Some v \<Rightarrow> purchase \<lparr>sale = JNull, purchase = JNum (19 :: int)\<rparr> = v))"
proof -
  let ?entries = "[JObj [(''currency'', JStr ''EUR''), (''purchaseRate'', JNum (19 :: int))]]"
  let ?d = "[(''exchangeRate'', JArr ?entries)]"
  let ?rr = "\<lparr>sale = JNull, purchase = JNum (19 :: int)\<rparr>"
  have field: "map_of ?d ''exchangeRate'' = Some (JArr ?entries)"
    by simp
  have run: "parse_response (JObj ?d) ''01.12.2014'' = Inr [(''01.12.2014'', [(''EUR'', ?rr)])]"
    by (simp add: parse_response_def dict_get_def iter_items_def rate_record_of_def
        wanted_currencies_def)
  have "(''01.12.2014'', [(''EUR'', ?rr)]) \<in> set [(''01.12.2014'', [(''EUR'', ?rr)])]"
    and "(''EUR'', ?rr) \<in> set [(''EUR'', ?rr)]"
    by simp_all
  from parse_response_absent_rate_is_None[OF field run this]
  show ?thesis
    by (rule conjI[OF run])
qed

text \<open>
  Claim C10. When the array, one of objects, holds several entries for \<^verbatim>\<open>EUR\<close> (or for
  \<^verbatim>\<open>USD\<close>), the record returned for that currency is the one built from the last of
  them: whatever entries come before it, no error is raised, the currency has one
  record, and it is the last entry's.
\<close>

theorem parse_response_last_entry_wins:
  assumes "map_of d ''exchangeRate'' = Some (JArr (pre @ JObj rate # post))"
    and "\<forall>x\<in>set (pre @ post). \<exists>rate'. x = JObj rate'"
    and "map_of rate ''currency'' = Some (JStr c)"
    and "c = ''EUR'' \<or> c = ''USD''"
    and "\<forall>rate'. JObj rate' \<in> set post \<longrightarrow> map_of rate' ''currency'' \<noteq> Some (JStr c)"
  shows "\<exists>rates. parse_response (JObj d) date = Inr [(date, rates)] \<and>
           distinct (map fst rates) \<and> map_of rates c = Some (rate_record_of rate)"
proof -
  from assms(2) have "\<forall>x\<in>set (pre @ JObj rate # post). \<exists>rate'. x = JObj rate'"
    by auto
  with parse_loop_returns[of "pre @ JObj rate # post" "[]"]
  obtain rates where run: "parse_loop (pre @ JObj rate # post) [] = Inr rates"
    by blast
  from assms(4) have "c \<in> set wanted_currencies"
    by (auto simp: wanted_currencies_def)
  from parse_loop_last[OF run assms(3) this assms(5)]
  have last: "map_of rates c = Some (rate_record_of rate)" .
  then have "rates \<noteq> []" by auto
  with run have "parse_response (JObj d) date = Inr [(date, rates)]"
    by (simp add: parse_response_array[OF assms(1)])
  moreover from parse_loop_distinct[OF run] have "distinct (map fst rates)"
    by simp
  ultimately show ?thesis using last by blast
qed

theorem parse_response_last_entry_wins_witness:
  "\<exists>rates. parse_response
       (JObj [(''exchangeRate'',
               JArr [JObj [(''currency'', JStr ''EUR''), (''saleRate'', JNum (1 :: int))],
                     JObj [(''currency'', JStr ''USD''), (''saleRate'', JNum 5)],
                     JObj [(''currency'', JStr ''EUR''), (''saleRate'', JNum 2)],
                     JObj [(''currency'', JStr ''GBP''), (''saleRate'', JNum 9)]])])
       ''01.12.2014'' = Inr [(''01.12.2014'', rates)] \<and>
     distinct (map fst rates) \<and>
     map_of rates ''EUR'' = Some \<lparr>sale = JNum 2, purchase = JNull\<rparr>"
proof -
  let ?pre = "[JObj [(''currency'', JStr ''EUR''), (''saleRate'', JNum (1 :: int))],
               JObj [(''currency'', JStr ''USD''), (''saleRate'', JNum 5)]]"
  let ?rate = "[(''currency'', JStr ''EUR''), (''saleRate'', JNum (2 :: int))]"
  let ?post = "[JObj [(''currency'', JStr ''GBP''), (''saleRate'', JNum (9 :: int))]]"
  let ?d = "[(''exchangeRate'', JArr (?pre @ JObj ?rate # ?post))]"
  have field: "map_of ?d ''exchangeRate'' = Some (JArr (?pre @ JObj ?rate # ?post))"
    by simp
  have dicts: "\<forall>x\<in>set (?pre @ ?post). \<exists>rate'. x = JObj rate'"
    by simp
  have cur: "map_of ?rate ''currency'' = Some (JStr ''EUR'')"
    by simp
  have wanted: "''EUR'' = ''EUR'' \<or> ''EUR'' = ''USD''"
    by simp
  have later: "\<forall>rate'. JObj rate' \<in> set ?post \<longrightarrow> map_of rate' ''currency'' \<noteq> Some (JStr ''EUR'')"
    by simp
  from parse_response_last_entry_wins[OF field dicts cur wanted later, of "''01.12.2014''"]
  show ?thesis by (simp add: rate_record_of_def dict_get_def)
qed

end
